theory Spec2Isabelle
  imports Main "HOL-Library.Word"
begin

section \<open>JavaScript values and row objects\<close>

text \<open>
  A cell of the table, as a block read returns it: a boolean, a number or a string.
  Numbers in cells are the integers from \<open>-2^53\<close> to \<open>2^53 - 1\<close>, which JavaScript holds
  exactly and writes in plain decimal. Other numbers, and date cells, which a block read
  returns as objects, are not covered.
\<close>

datatype cell =
    CBool bool
  | CNum "54 word"
  | CStr string

text \<open>
  The values stored in a row object; the numbers are those a cell holds. \<open>JMeta r c\<close>
  is the metadata object \<open>{ row: r, cols: c }\<close> that \<open>getValues\<close> puts under the key
  \<open>__meta\<close> (declared \<open>{ row: number, cols: number }\<close>). \<open>JInherited k\<close> is the
  member of \<open>Object.prototype\<close> named \<open>k\<close>, which every object inherits: a function,
  or for \<open>__proto__\<close> the prototype itself.
\<close>

datatype jsval =
    JUndefined
  | JNull
  | JBool bool
  | JNum "54 word"
  | JStr string
  | JMeta int int
  | JInherited string

text \<open>
  An object is the list of its own properties in enumeration order; its prototype is
  \<open>Object.prototype\<close>, as for every object literal.
\<close>

type_synonym jsobj = "(string \<times> jsval) list"

datatype exn = TypeError

text \<open>A JavaScript number that may be \<open>NaN\<close>: the value of \<open>row.__meta.row - i\<close>.\<close>

datatype num = Num int | NaN

text \<open>Truthiness, as tested by \<open>?:\<close>, \<open>&&\<close> and \<open>!\<close>.\<close>

fun truthy :: "jsval \<Rightarrow> bool" where
  "truthy JUndefined = False"
| "truthy JNull = False"
| "truthy (JBool b) = b"
| "truthy (JNum n) = (n \<noteq> 0)"
| "truthy (JStr s) = (s \<noteq> [])"
| "truthy (JMeta r c) = True"
| "truthy (JInherited k) = True"

text \<open>
  An array element read \<open>xs[i]\<close> gives \<open>None\<close>, for \<open>undefined\<close>, past the end.
  \<open>element_value\<close> is the element as a value.
\<close>

definition js_nth :: "cell list \<Rightarrow> nat \<Rightarrow> cell option" where
  "js_nth xs i = (if i < length xs then Some (xs ! i) else None)"

fun element_value :: "cell option \<Rightarrow> jsval" where
  "element_value None = JUndefined"
| "element_value (Some (CBool b)) = JBool b"
| "element_value (Some (CNum n)) = JNum n"
| "element_value (Some (CStr s)) = JStr s"

text \<open>Decimal rendering of a number used as a property key.\<close>

fun nat_digits :: "nat \<Rightarrow> string" where
  "nat_digits n =
     (if n < 10 then [''0123456789'' ! n]
      else nat_digits (n div 10) @ [''0123456789'' ! (n mod 10)])"

declare nat_digits.simps [simp del]

definition int_digits :: "int \<Rightarrow> string" where
  "int_digits n = (if n < 0 then CHR ''-'' # nat_digits (nat (- n)) else nat_digits (nat n))"

text \<open>The property key an array element denotes in \<open>obj[xs[i]]\<close>.\<close>

fun to_property_key :: "cell option \<Rightarrow> string" where
  "to_property_key None = ''undefined''"
| "to_property_key (Some (CBool b)) = (if b then ''true'' else ''false'')"
| "to_property_key (Some (CNum n)) = int_digits (sint n)"
| "to_property_key (Some (CStr s)) = s"

text \<open>
  Own-property order: keys that are array indices come first, in ascending numeric
  order, then all other keys in insertion order.
\<close>

fun position :: "char \<Rightarrow> string \<Rightarrow> nat \<Rightarrow> nat option" where
  "position c [] n = None"
| "position c (d # ds) n = (if c = d then Some n else position c ds (Suc n))"

definition digit_val :: "char \<Rightarrow> nat option" where
  "digit_val c = position c ''0123456789'' 0"

fun digits_value :: "nat \<Rightarrow> string \<Rightarrow> nat option" where
  "digits_value acc [] = Some acc"
| "digits_value acc (c # cs) =
     (case digit_val c of None \<Rightarrow> None | Some d \<Rightarrow> digits_value (10 * acc + d) cs)"

definition array_index :: "string \<Rightarrow> nat option" where
  "array_index s =
     (if s = [] then None
      else if s = ''0'' then Some 0
      else if hd s = CHR ''0'' then None
      else (case digits_value 0 s of
              None \<Rightarrow> None
            | Some n \<Rightarrow> if n < 4294967295 then Some n else None))"

fun obj_replace :: "string \<Rightarrow> jsval \<Rightarrow> jsobj \<Rightarrow> jsobj" where
  "obj_replace k v [] = []"
| "obj_replace k v ((k', v') # ps) =
     (if k' = k then (k, v) # ps else (k', v') # obj_replace k v ps)"

fun obj_insert_index :: "nat \<Rightarrow> string \<Rightarrow> jsval \<Rightarrow> jsobj \<Rightarrow> jsobj" where
  "obj_insert_index i k v [] = [(k, v)]"
| "obj_insert_index i k v ((k', v') # ps) =
     (case array_index k' of
        None \<Rightarrow> (k, v) # (k', v') # ps
      | Some j \<Rightarrow> if j < i then (k', v') # obj_insert_index i k v ps
                  else (k, v) # (k', v') # ps)"

text \<open>The names of the members of \<open>Object.prototype\<close>.\<close>

definition object_prototype_keys :: "string list" where
  "object_prototype_keys =
     [''constructor'', ''hasOwnProperty'', ''isPrototypeOf'', ''propertyIsEnumerable'',
      ''toLocaleString'', ''toString'', ''valueOf'', ''__proto__'',
      ''__defineGetter__'', ''__defineSetter__'', ''__lookupGetter__'', ''__lookupSetter__'']"

text \<open>
  Property read \<open>obj[k]\<close>: the own property when there is one, else the member of
  \<open>Object.prototype\<close> of that name, else \<open>undefined\<close>.
\<close>

definition obj_get :: "jsobj \<Rightarrow> string \<Rightarrow> jsval" where
  "obj_get ob k =
     (case map_of ob k of
        Some v \<Rightarrow> v
      | None \<Rightarrow> if k \<in> set object_prototype_keys then JInherited k else JUndefined)"

text \<open>
  Assignment \<open>obj[k] = xs[i]\<close> of an array element, a cell or \<open>undefined\<close>. An own
  property is overwritten in place. Without one, the key \<open>__proto__\<close> reaches the setter
  of \<open>Object.prototype\<close>, which ignores a value that is neither an object nor \<open>null\<close>:
  no property is created. Any other key becomes a new own property.
\<close>

definition obj_set :: "string \<Rightarrow> cell option \<Rightarrow> jsobj \<Rightarrow> jsobj" where
  "obj_set k v ob =
     (case map_of ob k of
        Some old \<Rightarrow> obj_replace k (element_value v) ob
      | None \<Rightarrow>
          if k = ''__proto__'' then ob
          else (case array_index k of
                  None \<Rightarrow> ob @ [(k, element_value v)]
                | Some i \<Rightarrow> obj_insert_index i k (element_value v) ob))"

text \<open>\<open>delete obj[k]\<close> and \<open>Object.values(obj)\<close>.\<close>

definition obj_delete :: "string \<Rightarrow> jsobj \<Rightarrow> jsobj" where
  "obj_delete k ob = filter (\<lambda>p. fst p \<noteq> k) ob"

definition obj_values :: "jsobj \<Rightarrow> jsval list" where
  "obj_values ob = map snd ob"

text \<open>
  The member reads \<open>m.row\<close> and \<open>m.cols\<close> on the value \<open>m\<close> of \<open>row.__meta\<close>. They
  raise a \<open>TypeError\<close> when \<open>m\<close> is \<open>undefined\<close> or \<open>null\<close>; on a metadata object
  they give the stored number, on any other value \<open>undefined\<close> (here \<open>None\<close>).
\<close>

fun nullish :: "jsval \<Rightarrow> bool" where
  "nullish JUndefined = True"
| "nullish JNull = True"
| "nullish v = False"

fun member_row :: "jsval \<Rightarrow> int option" where
  "member_row (JMeta r c) = Some r"
| "member_row v = None"

fun member_cols :: "jsval \<Rightarrow> int option" where
  "member_cols (JMeta r c) = Some c"
| "member_cols v = None"

text \<open>\<open>x - i\<close> for a number or \<open>undefined\<close> \<open>x\<close>: \<open>undefined - i\<close> is \<open>NaN\<close>.\<close>

fun js_minus :: "int option \<Rightarrow> int \<Rightarrow> num" where
  "js_minus None i = NaN"
| "js_minus (Some n) i = Num (n - i)"

section \<open>The backing store\<close>

text \<open>
  The spreadsheet service is not part of the program. It is a parameter: a record of
  the operations the builder calls, over a store state \<open>'w\<close>. A table handle is an
  opaque number; \<open>getSheetByName\<close> answers \<open>None\<close> for \<open>null\<close>.
  \<open>deleteCells\<close> and \<open>setValues\<close> take the four arguments of the \<open>getRange\<close> call
  they are applied to.
\<close>

type_synonym handle = nat

record 'w backend =
  getSheetByName :: "'w \<Rightarrow> string option \<Rightarrow> handle option"
  getLastRow :: "'w \<Rightarrow> handle \<Rightarrow> int"
  getLastColumn :: "'w \<Rightarrow> handle \<Rightarrow> int"
  getSheetValues :: "'w \<Rightarrow> handle \<Rightarrow> int \<Rightarrow> int \<Rightarrow> int \<Rightarrow> int \<Rightarrow> cell list list"
  deleteCells :: "'w \<Rightarrow> handle \<Rightarrow> num \<Rightarrow> int \<Rightarrow> int \<Rightarrow> int option \<Rightarrow> 'w"
  setValues :: "'w \<Rightarrow> handle \<Rightarrow> int option \<Rightarrow> int \<Rightarrow> int \<Rightarrow> int option \<Rightarrow> jsval list list \<Rightarrow> 'w"
  appendRow :: "'w \<Rightarrow> handle \<Rightarrow> jsval list \<Rightarrow> 'w"
  flush :: "'w \<Rightarrow> 'w"

text \<open>Every call issued to the backing store is recorded, in order.\<close>

datatype call =
    GetSheetByName "string option"
  | GetLastRow handle
  | GetLastColumn handle
  | GetSheetValues handle int int int int
  | DeleteCells handle num int int "int option"
  | SetValues handle "int option" int int "int option" "jsval list list"
  | AppendRow handle "jsval list"
  | Flush

section \<open>SheetQueryBuilder\<close>

text \<open>
  The fields of the class. \<open>sheet\<close>, \<open>sheetValues\<close> and \<open>sheetHeadings\<close> are
  \<open>_sheet\<close>, \<open>_sheetValues\<close> and \<open>_sheetHeadings\<close>; \<open>None\<close> stands for
  \<open>undefined\<close> and \<open>null\<close>. The filter is a function from row objects to booleans,
  as its declared type \<open>(row: RowObject) => boolean\<close> says.
\<close>

record builder =
  columnNames :: "string list"
  sheetName :: "string option"
  whereFn :: "(jsobj \<Rightarrow> bool) option"
  sheet :: "handle option"
  sheetValues :: "jsobj list option"
  sheetHeadings :: "cell list option"

record 'w state = builder +
  world :: 'w
  calls :: "call list"

text \<open>
  An operation returns its value and the new state, or raises; the state an exception
  leaves behind is not described. Calls to the backing store return. The update callback
  receives the row by reference and may assign to it (\<open>updateRows\<close> itself reads the
  row again after the call): it returns its result (\<open>None\<close> for \<open>undefined\<close>) and the
  row as it left it.
\<close>

type_synonym ('a, 'w) result = "exn + 'a \<times> 'w state"

type_synonym updateFn = "jsobj \<Rightarrow> jsobj option \<times> jsobj"

definition logged :: "call \<Rightarrow> 'w state \<Rightarrow> 'w state" where
  "logged c s = s\<lparr>calls := calls s @ [c]\<rparr>"

text \<open>
  The constructor and the setters \<open>select\<close>, \<open>from\<close> and \<open>where\<close>. The store state
  \<open>w\<close> stands for the spreadsheet the builder was given or the active one.
\<close>

definition sheetQuery :: "'w \<Rightarrow> 'w state" where
  "sheetQuery w =
     \<lparr>columnNames = [], sheetName = None, whereFn = None, sheet = None,
      sheetValues = None, sheetHeadings = Some [], world = w, calls = []\<rparr>"

definition select_columns :: "string + string list \<Rightarrow> 'w state \<Rightarrow> 'w state" where
  "select_columns names s =
     s\<lparr>columnNames := (case names of Inl name \<Rightarrow> [name] | Inr list \<Rightarrow> list)\<rparr>"

definition from_sheet :: "string \<Rightarrow> 'w state \<Rightarrow> 'w state" where
  "from_sheet name s = s\<lparr>sheetName := Some name\<rparr>"

definition where_rows :: "(jsobj \<Rightarrow> bool) \<Rightarrow> 'w state \<Rightarrow> 'w state" where
  "where_rows fn s = s\<lparr>whereFn := Some fn\<rparr>"

definition clearCache :: "'w backend \<Rightarrow> 'w state \<Rightarrow> 'w state" where
  "clearCache be s =
     logged Flush (s\<lparr>sheetValues := None, sheetHeadings := Some [], world := flush be (world s)\<rparr>)"

definition getSheet :: "'w backend \<Rightarrow> 'w state \<Rightarrow> handle option \<times> 'w state" where
  "getSheet be s =
     (case sheet s of
        None \<Rightarrow>
          (let found = getSheetByName be (world s) (sheetName s)
           in (found, logged (GetSheetByName (sheetName s)) (s\<lparr>sheet := found\<rparr>)))
      | Some h \<Rightarrow> (Some h, s))"

text \<open>
  \<open>!this._sheetHeadings || !this._sheetHeadings.length\<close>, and the element read
  \<open>block[0]\<close> on the block a header read returns.
\<close>

fun unloaded :: "cell list option \<Rightarrow> bool" where
  "unloaded None = True"
| "unloaded (Some hs) = (length hs = 0)"

fun first_row :: "cell list list \<Rightarrow> cell list option" where
  "first_row [] = None"
| "first_row (r # rest) = Some r"

definition getHeadings :: "'w backend \<Rightarrow> 'w state \<Rightarrow> (cell list option, 'w) result" where
  "getHeadings be s =
     (if unloaded (sheetHeadings s) then
        (case getSheet be s of
           (None, s1) \<Rightarrow> Inl TypeError
         | (Some h, s1) \<Rightarrow>
             (let numCols = getLastColumn be (world s1) h;
                  s2 = logged (GetLastColumn h) s1;
                  block = getSheetValues be (world s2) h 1 1 1 numCols;
                  s3 = logged (GetSheetValues h 1 1 1 numCols) s2
              in Inr (first_row block, s3\<lparr>sheetHeadings := first_row block\<rparr>)))
      else Inr (sheetHeadings s, s))"

text \<open>
  The two loops of \<open>getValues\<close>: \<open>fill_row\<close> is the loop over the columns \<open>c\<close> of one
  row, \<open>rows_loop\<close> the loop over the rows \<open>r\<close> of the block, which pushes each record
  onto \<open>rowValues\<close>. Indexing \<open>headings\<close> raises a \<open>TypeError\<close> when it is \<open>undefined\<close>.
\<close>

function fill_row ::
  "cell list option \<Rightarrow> cell list \<Rightarrow> int \<Rightarrow> nat \<Rightarrow> jsobj \<Rightarrow> exn + jsobj" where
  "fill_row headings cells numCols c ob =
     (if int c < numCols then
        (case headings of
           None \<Rightarrow> Inl TypeError
         | Some hs \<Rightarrow>
             fill_row headings cells numCols (c + 1)
               (obj_set (to_property_key (js_nth hs c)) (js_nth cells c) ob))
      else Inr ob)"
  by pat_completeness auto
termination
  by (relation "measure (\<lambda>(headings, cells, numCols, c, ob). nat (numCols - int c))") auto

declare fill_row.simps [simp del]

function rows_loop ::
  "cell list option \<Rightarrow> cell list list \<Rightarrow> int \<Rightarrow> nat \<Rightarrow> jsobj list \<Rightarrow> exn + jsobj list" where
  "rows_loop headings block numCols r rowValues =
     (if r < length block then
        (case fill_row headings (block ! r) numCols 0
                [(''__meta'', JMeta (int r + 2) numCols)] of
           Inl e \<Rightarrow> Inl e
         | Inr ob \<Rightarrow> rows_loop headings block numCols (r + 1) (rowValues @ [ob]))
      else Inr rowValues)"
  by pat_completeness auto
termination
  by (relation "measure (\<lambda>(headings, block, numCols, r, rowValues). length block - r)") auto

declare rows_loop.simps [simp del]

definition getValues :: "'w backend \<Rightarrow> 'w state \<Rightarrow> (jsobj list, 'w) result" where
  "getValues be s =
     (case sheetValues s of
        Some vs \<Rightarrow> Inr (vs, s)
      | None \<Rightarrow>
          (case getSheet be s of
             (None, s1) \<Rightarrow> Inl TypeError
           | (Some h, s1) \<Rightarrow>
               (let numCols = getLastColumn be (world s1) h;
                    s2 = logged (GetLastColumn h) s1;
                    lastRow = getLastRow be (world s2) h;
                    s3 = logged (GetLastRow h) s2;
                    block = getSheetValues be (world s3) h 2 1 lastRow numCols;
                    s4 = logged (GetSheetValues h 2 1 lastRow numCols) s3
                in (case getHeadings be s4 of
                      Inl e \<Rightarrow> Inl e
                    | Inr (headings, s5) \<Rightarrow>
                        (case rows_loop headings block numCols 0 [] of
                           Inl e \<Rightarrow> Inl e
                         | Inr rowValues \<Rightarrow>
                             Inr (rowValues, s5\<lparr>sheetValues := Some rowValues\<rparr>))))))"

definition getRows :: "'w backend \<Rightarrow> 'w state \<Rightarrow> (jsobj list, 'w) result" where
  "getRows be s =
     (case getValues be s of
        Inl e \<Rightarrow> Inl e
      | Inr (vs, s1) \<Rightarrow>
          (case whereFn s1 of
             Some fn \<Rightarrow> Inr (filter fn vs, s1)
           | None \<Rightarrow> Inr (vs, s1)))"

text \<open>
  The body of \<open>rows.forEach\<close> in \<open>deleteRows\<close>, with the counter \<open>i\<close>. \<open>DeleteCells\<close> stands
  for \<open>getRange(row.__meta.row - i, 1, 1, row.__meta.cols)\<close> followed by
  \<open>deleteCells(ROWS)\<close> on that range. Reading \<open>getRange\<close> off a missing table reference
  and reading \<open>row\<close> or \<open>cols\<close> off a missing \<open>__meta\<close> raise a \<open>TypeError\<close>.
\<close>

fun deleteRows_loop ::
  "'w backend \<Rightarrow> jsobj list \<Rightarrow> int \<Rightarrow> 'w state \<Rightarrow> exn + 'w state" where
  "deleteRows_loop be [] i s = Inr s"
| "deleteRows_loop be (row # rows) i s =
     (case sheet s of
        None \<Rightarrow> Inl TypeError
      | Some h \<Rightarrow>
          (if nullish (obj_get row ''__meta'') then Inl TypeError
           else
             (let r = js_minus (member_row (obj_get row ''__meta'')) i;
                  cols = member_cols (obj_get row ''__meta'')
              in deleteRows_loop be rows (i + 1)
                   (logged (DeleteCells h r 1 1 cols)
                      (s\<lparr>world := deleteCells be (world s) h r 1 1 cols\<rparr>)))))"

definition deleteRows :: "'w backend \<Rightarrow> 'w state \<Rightarrow> (unit, 'w) result" where
  "deleteRows be s =
     (case getRows be s of
        Inl e \<Rightarrow> Inl e
      | Inr (rows, s1) \<Rightarrow>
          (case deleteRows_loop be rows 0 s1 of
             Inl e \<Rightarrow> Inl e
           | Inr s2 \<Rightarrow> Inr ((), clearCache be s2)))"

text \<open>
  The flat row \<open>updateRows\<close> writes for one matched row: the values of the callback's
  result when it is an object with a truthy \<open>__meta\<close>, else the values of the row itself,
  in both cases after \<open>delete ... .__meta\<close>.
\<close>

definition updated_values :: "updateFn \<Rightarrow> jsobj \<Rightarrow> jsval list" where
  "updated_values updateFn row =
     (case updateFn row of
        (Some updatedRow, row') \<Rightarrow>
          (if truthy (obj_get updatedRow ''__meta'')
           then obj_values (obj_delete ''__meta'' updatedRow)
           else obj_values (obj_delete ''__meta'' row'))
      | (None, row') \<Rightarrow> obj_values (obj_delete ''__meta'' row'))"

text \<open>
  The body of \<open>rows.forEach\<close> in \<open>updateRows\<close>. \<open>SetValues\<close> stands for
  \<open>getRange(row.__meta.row, 1, 1, row.__meta.cols)\<close>, taken before the callback runs,
  followed by \<open>setValues([arrayValues])\<close> on that range.
\<close>

fun updateRows_loop ::
  "'w backend \<Rightarrow> updateFn \<Rightarrow> jsobj list \<Rightarrow> 'w state \<Rightarrow> exn + 'w state" where
  "updateRows_loop be updateFn [] s = Inr s"
| "updateRows_loop be updateFn (row # rows) s =
     (case sheet s of
        None \<Rightarrow> Inl TypeError
      | Some h \<Rightarrow>
          (if nullish (obj_get row ''__meta'') then Inl TypeError
           else
             (let r = member_row (obj_get row ''__meta'');
                  cols = member_cols (obj_get row ''__meta'');
                  arrayValues = updated_values updateFn row
              in updateRows_loop be updateFn rows
                   (logged (SetValues h r 1 1 cols [arrayValues])
                      (s\<lparr>world := setValues be (world s) h r 1 1 cols [arrayValues]\<rparr>)))))"

definition updateRows :: "'w backend \<Rightarrow> updateFn \<Rightarrow> 'w state \<Rightarrow> (unit, 'w) result" where
  "updateRows be updateFn s =
     (case getRows be s of
        Inl e \<Rightarrow> Inl e
      | Inr (rows, s1) \<Rightarrow>
          (case updateRows_loop be updateFn rows s1 of
             Inl e \<Rightarrow> Inl e
           | Inr s2 \<Rightarrow> Inr ((), clearCache be s2)))"

text \<open>
  The cell \<open>insertRows\<close> appends for one heading of one input record,
  \<open>row[heading] ? row[heading] : ''\<close>, and the body of \<open>newRows.forEach\<close>.
\<close>

definition insert_cell :: "jsobj \<Rightarrow> cell \<Rightarrow> jsval" where
  "insert_cell row heading =
     (if truthy (obj_get row (to_property_key (Some heading)))
      then obj_get row (to_property_key (Some heading)) else JStr '''')"

fun insertRows_loop ::
  "'w backend \<Rightarrow> handle option \<Rightarrow> cell list option \<Rightarrow> jsobj list \<Rightarrow> 'w state \<Rightarrow> exn + 'w state" where
  "insertRows_loop be sh headings [] s = Inr s"
| "insertRows_loop be sh headings (row # newRows) s =
     (case headings of
        None \<Rightarrow> Inl TypeError
      | Some hs \<Rightarrow>
          (let rowValues = map (insert_cell row) hs
           in (case sh of
                 None \<Rightarrow> Inl TypeError
               | Some h \<Rightarrow>
                   insertRows_loop be sh headings newRows
                     (logged (AppendRow h rowValues)
                        (s\<lparr>world := appendRow be (world s) h rowValues\<rparr>)))))"

definition insertRows :: "'w backend \<Rightarrow> jsobj list \<Rightarrow> 'w state \<Rightarrow> (unit, 'w) result" where
  "insertRows be newRows s =
     (case getSheet be s of
        (sh, s1) \<Rightarrow>
          (case getHeadings be s1 of
             Inl e \<Rightarrow> Inl e
           | Inr (headings, s2) \<Rightarrow>
               (case insertRows_loop be sh headings newRows s2 of
                  Inl e \<Rightarrow> Inl e
                | Inr s3 \<Rightarrow> Inr ((), s3))))"

section \<open>Reference points for the statements\<close>

text \<open>
  The record the specification describes for the block's row \<open>r\<close>: the metadata
  \<open>{ row: r + 2, cols: numCols }\<close>, then the heading at each column index \<open>c\<close> below
  \<open>numCols\<close> assigned the cell at \<open>[r][c]\<close>.
\<close>

definition spec_row :: "cell list \<Rightarrow> int \<Rightarrow> nat \<Rightarrow> cell list \<Rightarrow> jsobj" where
  "spec_row headings numCols r cells =
     foldl (\<lambda>ob c. obj_set (to_property_key (js_nth headings c)) (js_nth cells c) ob)
       [(''__meta'', JMeta (int r + 2) numCols)] [0..<nat numCols]"

text \<open>
  The number of data rows of a table, in the specification's layout: row 1 is the
  header and the data rows are rows 2 to the last row.
\<close>

definition dataRowCount :: "'w backend \<Rightarrow> 'w \<Rightarrow> handle \<Rightarrow> int" where
  "dataRowCount be w h = getLastRow be w h - 1"

text \<open>Classification of recorded calls: reads of the data block, which starts at row 2,
  reads of the header row, positional deletes and positional writes.\<close>

fun is_block_read :: "call \<Rightarrow> bool" where
  "is_block_read (GetSheetValues h r c n m) = (r = 2)"
| "is_block_read other = False"

fun is_header_read :: "call \<Rightarrow> bool" where
  "is_header_read (GetSheetValues h r c n m) = (r = 1 \<and> c = 1 \<and> n = 1)"
| "is_header_read other = False"

fun is_delete :: "call \<Rightarrow> bool" where
  "is_delete (DeleteCells h r c n m) = True"
| "is_delete other = False"

fun is_write :: "call \<Rightarrow> bool" where
  "is_write (SetValues h r c n m vs) = True"
| "is_write other = False"

text \<open>The calls an operation added to the record.\<close>

definition new_calls :: "'w state \<Rightarrow> 'w state \<Rightarrow> call list" where
  "new_calls s s' = drop (length (calls s)) (calls s')"

text \<open>
  What a first \<open>getValues\<close> on table \<open>h\<close> leaves as headings, and the calls it issues:
  the lookup by name when no table reference is cached, the last column, the last row,
  the block read, and the header read when no headings are cached.
\<close>

definition load_headings :: "'w backend \<Rightarrow> 'w state \<Rightarrow> handle \<Rightarrow> cell list option" where
  "load_headings be s h =
     (if unloaded (sheetHeadings s)
      then first_row (getSheetValues be (world s) h 1 1 1 (getLastColumn be (world s) h))
      else sheetHeadings s)"

definition load_calls :: "'w backend \<Rightarrow> 'w state \<Rightarrow> handle \<Rightarrow> call list" where
  "load_calls be s h =
     (case sheet s of None \<Rightarrow> [GetSheetByName (sheetName s)] | Some x \<Rightarrow> []) @
     [GetLastColumn h, GetLastRow h,
      GetSheetValues h 2 1 (getLastRow be (world s) h) (getLastColumn be (world s) h)] @
     (if unloaded (sheetHeadings s)
      then [GetLastColumn h, GetSheetValues h 1 1 1 (getLastColumn be (world s) h)] else [])"

text \<open>\<open>getHeadings\<close> called \<open>n\<close> times in a row.\<close>

fun repeat_getHeadings :: "'w backend \<Rightarrow> nat \<Rightarrow> 'w state \<Rightarrow> exn + 'w state" where
  "repeat_getHeadings be 0 s = Inr s"
| "repeat_getHeadings be (Suc n) s =
     (case getHeadings be s of
        Inl e \<Rightarrow> Inl e
      | Inr (headings, s1) \<Rightarrow> repeat_getHeadings be n s1)"

section \<open>Reference stores\<close>

text \<open>
  The backing store is outside the program's source. Two stores serve the examples.
  Both hold one table, named \<open>Data\<close>, as the list of its rows, header first; the last
  row is the number of rows and the last column the width of the header. They keep a
  written boolean, number or string as a cell and any other written value as a blank
  cell.
\<close>

fun stored :: "jsval \<Rightarrow> cell" where
  "stored (JBool b) = CBool b"
| "stored (JNum n) = CNum n"
| "stored (JStr s) = CStr s"
| "stored v = CStr ''''"

text \<open>
  Modelled from the spec: the backing-store collaborator (table lookup by name, last
  row, last column, block read, block write, row append, row delete, flush). In
  \<open>grid_store\<close> a block read returns the cells that exist inside the requested
  rectangle.
\<close>

definition grid_store :: "cell list list backend" where
  "grid_store =
     \<lparr>getSheetByName = (\<lambda>w name. if name = Some ''Data'' then Some 0 else None),
      getLastRow = (\<lambda>w h. int (length w)),
      getLastColumn = (\<lambda>w h. case w of [] \<Rightarrow> 0 | r # rest \<Rightarrow> int (length r)),
      getSheetValues = (\<lambda>w h r c n m.
         map (\<lambda>cells. take (nat m) (drop (nat (c - 1)) cells))
           (take (nat n) (drop (nat (r - 1)) w))),
      deleteCells = (\<lambda>w h r c n m.
         case r of NaN \<Rightarrow> w
         | Num k \<Rightarrow> take (nat (k - 1)) w @ drop (nat (k - 1) + nat n) w),
      setValues = (\<lambda>w h r c n m vs.
         case r of None \<Rightarrow> w
         | Some k \<Rightarrow> (case vs of [] \<Rightarrow> w
                      | v # rest \<Rightarrow> if 1 \<le> k \<and> nat k \<le> length w
                                   then w[nat (k - 1) := map stored v] else w)),
      appendRow = (\<lambda>w h vs. w @ [map stored vs]),
      flush = (\<lambda>w. w)\<rparr>"

text \<open>
  Modelled from the spec: the collaborator's block read, which reads a rectangular block
  of cells given by 1-based row, column and size. In \<open>sheet_store\<close> a block read returns
  the whole requested rectangle, as a spreadsheet does: \<open>n\<close> rows of \<open>m\<close> cells, with the
  empty string for every cell outside the stored rows. The other operations are those of
  \<open>grid_store\<close>.
\<close>

definition cell_at :: "cell list list \<Rightarrow> nat \<Rightarrow> nat \<Rightarrow> cell" where
  "cell_at w i j = (if i < length w \<and> j < length (w ! i) then w ! i ! j else CStr '''')"

definition sheet_store :: "cell list list backend" where
  "sheet_store =
     grid_store\<lparr>getSheetValues := (\<lambda>w h r c n m.
        map (\<lambda>i. map (\<lambda>j. cell_at w (nat (r - 1) + i) (nat (c - 1) + j)) [0..<nat m])
          [0..<nat n])\<rparr>"

section \<open>Example tables and builders\<close>

definition table_AB :: "cell list list" where
  "table_AB = [[CStr ''A'', CStr ''B''], [CNum 1, CNum 2]]"

definition table_four :: "cell list list" where
  "table_four =
     [[CStr ''A'', CStr ''B''], [CNum 1, CNum 10], [CNum 2, CNum 20],
      [CNum 3, CNum 30], [CNum 4, CNum 40]]"

definition table_header_only :: "cell list list" where
  "table_header_only = [[CStr ''A'', CStr ''B'']]"

text \<open>A table whose header row has no columns.\<close>

definition table_blank :: "cell list list" where
  "table_blank = [[]]"

text \<open>The filter that matches the rows at positions 2 and 4.\<close>

definition at_2_or_4 :: "jsobj \<Rightarrow> bool" where
  "at_2_or_4 row =
     (member_row (obj_get row ''__meta'') = Some 2 \<or> member_row (obj_get row ''__meta'') = Some 4)"


text \<open>An update callback that leaves the row alone and returns nothing.\<close>

definition no_update :: updateFn where
  "no_update row = (None, row)"

text \<open>Fresh builders on the example tables.\<close>

definition query_AB :: "cell list list state" where
  "query_AB = from_sheet ''Data'' (sheetQuery table_AB)"

definition query_four :: "cell list list state" where
  "query_four = where_rows at_2_or_4 (from_sheet ''Data'' (sheetQuery table_four))"

definition query_header_only :: "cell list list state" where
  "query_header_only = from_sheet ''Data'' (sheetQuery table_header_only)"

definition query_blank :: "cell list list state" where
  "query_blank = from_sheet ''Data'' (sheetQuery table_blank)"

text \<open>
  The table with headings A, B and one data row: its rows, the builder after it has
  loaded them, after it has loaded the headings only, and after each of the operations
  used in the examples.
\<close>

definition rows_AB :: "jsobj list" where
  "rows_AB = [[(''__meta'', JMeta 2 2), (''A'', JNum 1), (''B'', JNum 2)]]"

definition loaded_AB :: "cell list list state" where
  "loaded_AB =
     query_AB\<lparr>sheet := Some 0, sheetValues := Some rows_AB,
       sheetHeadings := Some [CStr ''A'', CStr ''B''],
       calls := [GetSheetByName (Some ''Data''), GetLastColumn 0, GetLastRow 0,
                 GetSheetValues 0 2 1 2 2, GetLastColumn 0, GetSheetValues 0 1 1 1 2]\<rparr>"


definition deleted_AB :: "cell list list state" where
  "deleted_AB =
     loaded_AB\<lparr>sheetValues := None, sheetHeadings := Some [],
       world := [[CStr ''A'', CStr ''B'']],
       calls := calls loaded_AB @ [DeleteCells 0 (Num 2) 1 1 (Some 2), Flush]\<rparr>"


definition rewritten_AB :: "cell list list state" where
  "rewritten_AB =
     loaded_AB\<lparr>sheetValues := None, sheetHeadings := Some [],
       calls := calls loaded_AB @ [SetValues 0 (Some 2) 1 1 (Some 2) [[JNum 1, JNum 2]], Flush]\<rparr>"

definition inserted_AB :: "cell list list state" where
  "inserted_AB =
     loaded_AB\<lparr>world := table_AB @ [[CNum 5, CNum 6]],
       calls := calls loaded_AB @ [AppendRow 0 [JNum 5, JNum 6]]\<rparr>"


text \<open>
  The table with data rows at positions 2 to 5: its rows, the rows the filter matches,
  the builder after loading and after \<open>deleteRows\<close>.
\<close>

definition rows_four :: "jsobj list" where
  "rows_four =
     [[(''__meta'', JMeta 2 2), (''A'', JNum 1), (''B'', JNum 10)],
      [(''__meta'', JMeta 3 2), (''A'', JNum 2), (''B'', JNum 20)],
      [(''__meta'', JMeta 4 2), (''A'', JNum 3), (''B'', JNum 30)],
      [(''__meta'', JMeta 5 2), (''A'', JNum 4), (''B'', JNum 40)]]"

definition matched_four :: "jsobj list" where
  "matched_four =
     [[(''__meta'', JMeta 2 2), (''A'', JNum 1), (''B'', JNum 10)],
      [(''__meta'', JMeta 4 2), (''A'', JNum 3), (''B'', JNum 30)]]"

definition loaded_four :: "cell list list state" where
  "loaded_four =
     query_four\<lparr>sheet := Some 0, sheetValues := Some rows_four,
       sheetHeadings := Some [CStr ''A'', CStr ''B''],
       calls := [GetSheetByName (Some ''Data''), GetLastColumn 0, GetLastRow 0,
                 GetSheetValues 0 2 1 5 2, GetLastColumn 0, GetSheetValues 0 1 1 1 2]\<rparr>"

definition deleted_four :: "cell list list state" where
  "deleted_four =
     loaded_four\<lparr>sheetValues := None, sheetHeadings := Some [],
       world := [[CStr ''A'', CStr ''B''], [CNum 2, CNum 20], [CNum 4, CNum 40]],
       calls := calls loaded_four @
                [DeleteCells 0 (Num 2) 1 1 (Some 2), DeleteCells 0 (Num 3) 1 1 (Some 2), Flush]\<rparr>"

text \<open>
  The same two tables in \<open>sheet_store\<close>, where a block read returns the whole requested
  rectangle: the rows the builder materializes from the table with one data row and the
  builder after loading them; for the table with only a header row, the builder after
  loading, after \<open>deleteRows\<close> and after \<open>updateRows\<close> with a callback that returns
  nothing.
\<close>

definition padded_AB :: "cell list list state" where
  "padded_AB =
     query_AB\<lparr>sheet := Some 0,
       sheetValues := Some [[(''__meta'', JMeta 2 2), (''A'', JNum 1), (''B'', JNum 2)],
                            [(''__meta'', JMeta 3 2), (''A'', JStr ''''), (''B'', JStr '''')]],
       sheetHeadings := Some [CStr ''A'', CStr ''B''],
       calls := [GetSheetByName (Some ''Data''), GetLastColumn 0, GetLastRow 0,
                 GetSheetValues 0 2 1 2 2, GetLastColumn 0, GetSheetValues 0 1 1 1 2]\<rparr>"

definition loaded_header_only :: "cell list list state" where
  "loaded_header_only =
     query_header_only\<lparr>sheet := Some 0,
       sheetValues := Some [[(''__meta'', JMeta 2 2), (''A'', JStr ''''), (''B'', JStr '''')]],
       sheetHeadings := Some [CStr ''A'', CStr ''B''],
       calls := [GetSheetByName (Some ''Data''), GetLastColumn 0, GetLastRow 0,
                 GetSheetValues 0 2 1 1 2, GetLastColumn 0, GetSheetValues 0 1 1 1 2]\<rparr>"

definition deleted_header_only :: "cell list list state" where
  "deleted_header_only =
     loaded_header_only\<lparr>sheetValues := None, sheetHeadings := Some [],
       calls := calls loaded_header_only @ [DeleteCells 0 (Num 2) 1 1 (Some 2), Flush]\<rparr>"

definition rewritten_header_only :: "cell list list state" where
  "rewritten_header_only =
     loaded_header_only\<lparr>sheetValues := None, sheetHeadings := Some [],
       calls := calls loaded_header_only @
                [SetValues 0 (Some 2) 1 1 (Some 2) [[JStr '''', JStr '''']], Flush]\<rparr>"





section \<open>Basic facts about the operations\<close>

lemma logged_fields [simp]:
  "calls (logged c s) = calls s @ [c]"
  "world (logged c s) = world s"
  "sheet (logged c s) = sheet s"
  "sheetValues (logged c s) = sheetValues s"
  "sheetHeadings (logged c s) = sheetHeadings s"
  "whereFn (logged c s) = whereFn s"
  "sheetName (logged c s) = sheetName s"
  "columnNames (logged c s) = columnNames s"
  by (simp_all add: logged_def)

lemma clearCache_fields [simp]:
  "sheetValues (clearCache be s) = None"
  "sheetHeadings (clearCache be s) = Some []"
  "calls (clearCache be s) = calls s @ [Flush]"
  "sheet (clearCache be s) = sheet s"
  "whereFn (clearCache be s) = whereFn s"
  "sheetName (clearCache be s) = sheetName s"
  "world (clearCache be s) = flush be (world s)"
  by (simp_all add: clearCache_def)

lemma new_calls_append [simp]: "calls s' = calls s @ cs \<Longrightarrow> new_calls s s' = cs"
  by (simp add: new_calls_def)

subsection \<open>Objects\<close>

lemma map_of_obj_replace:
  "map_of (obj_replace k v ob) k' =
     (if k' = k \<and> map_of ob k \<noteq> None then Some v else map_of ob k')"
  by (induction ob) auto

lemma map_of_obj_insert_index:
  "map_of ob k = None \<Longrightarrow>
   map_of (obj_insert_index i k v ob) k' = (if k' = k then Some v else map_of ob k')"
  by (induction ob) (auto split: option.splits if_splits)

text \<open>Reading a property after an assignment.\<close>

lemma obj_get_obj_set:
  "obj_get (obj_set k v ob) k' =
     (if k' = k \<and> (k \<noteq> ''__proto__'' \<or> map_of ob k \<noteq> None) then element_value v
      else obj_get ob k')"
  by (auto simp: obj_get_def obj_set_def map_of_obj_replace map_of_obj_insert_index
      split: option.splits)



lemma obj_get_assign_other:
  "\<forall>c\<in>set cs. f c \<noteq> k \<Longrightarrow>
   obj_get (foldl (\<lambda>ob c. obj_set (f c) (g c) ob) ob cs) k = obj_get ob k"
  by (induction cs arbitrary: ob) (auto simp: obj_get_obj_set)

lemma obj_get_assign_distinct:
  "inj_on f (set cs) \<Longrightarrow> c \<in> set cs \<Longrightarrow> f c \<noteq> ''__proto__'' \<Longrightarrow>
   obj_get (foldl (\<lambda>ob c. obj_set (f c) (g c) ob) ob cs) (f c) = element_value (g c)"
proof (induction cs arbitrary: c rule: rev_induct)
  case Nil
  then show ?case by simp
next
  case (snoc x xs)
  show ?case
  proof (cases "f c = f x")
    case True
    with snoc.prems have "c = x" by (auto simp: inj_on_def)
    with snoc.prems(3) show ?thesis by (simp add: obj_get_obj_set)
  next
    case False
    with snoc.prems have "c \<in> set xs" and "inj_on f (set xs)"
      by (auto simp: inj_on_def)
    with snoc.IH snoc.prems(3) False show ?thesis by (simp add: obj_get_obj_set)
  qed
qed

text \<open>
  The record of \<open>spec_row\<close> read back: the metadata is there unless a heading takes the
  key \<open>__meta\<close>, and each heading other than \<open>__proto__\<close> reads as its cell when the
  headings denote distinct keys.
\<close>

lemma spec_row_no_columns: "numCols \<le> 0 \<Longrightarrow> spec_row hs numCols r cells = [(''__meta'', JMeta (int r + 2) numCols)]"
  by (simp add: spec_row_def)

lemma spec_row_meta:
  assumes "\<forall>c<nat numCols. to_property_key (js_nth headings c) \<noteq> ''__meta''"
  shows "obj_get (spec_row headings numCols r cells) ''__meta'' = JMeta (int r + 2) numCols"
proof -
  have "obj_get (spec_row headings numCols r cells) ''__meta'' =
        obj_get [(''__meta'', JMeta (int r + 2) numCols)] ''__meta''"
    unfolding spec_row_def using assms by (intro obj_get_assign_other) simp
  then show ?thesis by (simp add: obj_get_def)
qed

lemma spec_row_field:
  assumes "inj_on (\<lambda>c. to_property_key (js_nth headings c)) {0..<nat numCols}"
      and "c < nat numCols"
      and "to_property_key (js_nth headings c) \<noteq> ''__proto__''"
  shows "obj_get (spec_row headings numCols r cells) (to_property_key (js_nth headings c)) =
           element_value (js_nth cells c)"
  unfolding spec_row_def using assms
  by (intro obj_get_assign_distinct[where f = "\<lambda>c. to_property_key (js_nth headings c)"]) simp_all

text \<open>
  The rows a filter keeps, out of rows materialized from a block, carry positions that
  ascend.
\<close>

lemma positions_ascending:
  assumes "\<forall>c<nat numCols. to_property_key (js_nth headings c) \<noteq> ''__meta''"
  shows "\<exists>idx. sorted_wrt (<) idx \<and>
           map (\<lambda>row. member_row (obj_get row ''__meta''))
             (filter fn (map (\<lambda>r. spec_row headings numCols r (block ! r)) [0..<n])) =
           map (\<lambda>r. Some (int r + 2)) idx"
proof -
  let ?f = "\<lambda>r. spec_row headings numCols r (block ! r)"
  let ?idx = "filter (fn \<circ> ?f) [0..<n]"
  have "sorted_wrt (<) ?idx"
    by (rule sorted_wrt_filter) simp
  moreover have "map (\<lambda>row. member_row (obj_get row ''__meta'')) (filter fn (map ?f [0..<n])) =
      map (\<lambda>r. Some (int r + 2)) ?idx"
    by (simp add: filter_map spec_row_meta[OF assms] comp_def)
  ultimately show ?thesis by blast
qed

lemma falsy_values:
  "\<not> truthy JUndefined" "\<not> truthy JNull" "\<not> truthy (JBool False)"
  "\<not> truthy (JNum 0)" "\<not> truthy (JStr '''')"
  by simp_all

subsection \<open>Table reference and headings\<close>

lemma getSheet_cached: "sheet s = Some h \<Longrightarrow> getSheet be s = (Some h, s)"
  by (simp add: getSheet_def)

lemma getSheet_set: "sheet s \<noteq> None \<Longrightarrow> getSheet be s = (sheet s, s)"
  by (auto simp: getSheet_def)

lemma getSheet_resolved:
  assumes "fst (getSheet be s) = Some h"
  shows "getSheet be s =
           (Some h, s\<lparr>sheet := Some h,
                      calls := calls s @ (case sheet s of None \<Rightarrow> [GetSheetByName (sheetName s)] | Some x \<Rightarrow> [])\<rparr>)"
  using assms by (cases "sheet s") (simp_all add: getSheet_def logged_def Let_def)

lemma getSheet_null:
  assumes "fst (getSheet be s) = None"
  shows "sheet s = None" and "getSheetByName be (world s) (sheetName s) = None"
  using assms by (cases "sheet s"; simp add: getSheet_def Let_def)+

lemma getHeadings_loaded:
  "\<not> unloaded (sheetHeadings s) \<Longrightarrow> getHeadings be s = Inr (sheetHeadings s, s)"
  by (simp add: getHeadings_def)

lemma getHeadings_load:
  assumes "unloaded (sheetHeadings s)" and "fst (getSheet be s) = Some h"
  shows "getHeadings be s =
     Inr (first_row (getSheetValues be (world s) h 1 1 1 (getLastColumn be (world s) h)),
          s\<lparr>sheet := Some h,
            sheetHeadings := first_row (getSheetValues be (world s) h 1 1 1 (getLastColumn be (world s) h)),
            calls := calls s @ (case sheet s of None \<Rightarrow> [GetSheetByName (sheetName s)] | Some x \<Rightarrow> [])
                       @ [GetLastColumn h, GetSheetValues h 1 1 1 (getLastColumn be (world s) h)]\<rparr>)"
  using assms(1) getSheet_resolved[OF assms(2)]
  by (simp add: getHeadings_def Let_def logged_def)

lemma getHeadings_null:
  assumes "unloaded (sheetHeadings s)" and "fst (getSheet be s) = None"
  shows "getHeadings be s = Inl TypeError"
  using assms by (cases "getSheet be s") (simp add: getHeadings_def)

lemma header_reads_getHeadings:
  assumes "fst (getSheet be s) = Some h" and "unloaded (sheetHeadings s)"
  shows "\<exists>cs. getHeadings be s =
            Inr (first_row (getSheetValues be (world s) h 1 1 1 (getLastColumn be (world s) h)),
                 s\<lparr>sheet := Some h,
                   sheetHeadings := first_row (getSheetValues be (world s) h 1 1 1
                                      (getLastColumn be (world s) h)),
                   calls := calls s @ cs\<rparr>) \<and>
          filter is_header_read cs =
            [GetSheetValues h 1 1 1 (getLastColumn be (world s) h)]"
  by (intro exI[of _ "(case sheet s of None \<Rightarrow> [GetSheetByName (sheetName s)] | Some x \<Rightarrow> []) @
        [GetLastColumn h, GetSheetValues h 1 1 1 (getLastColumn be (world s) h)]"])
    (simp add: getHeadings_load[OF assms(2,1)] split: option.split)

lemma repeat_getHeadings_empty:
  assumes "fst (getSheet be s) = Some h" and "unloaded (sheetHeadings s)"
      and "unloaded (first_row (getSheetValues be (world s) h 1 1 1 (getLastColumn be (world s) h)))"
  shows "\<exists>s' cs. repeat_getHeadings be n s = Inr s' \<and> calls s' = calls s @ cs \<and>
           length (filter is_header_read cs) = n"
  using assms
proof (induction n arbitrary: s)
  case 0
  show ?case by simp
next
  case (Suc n)
  let ?hs = "first_row (getSheetValues be (world s) h 1 1 1 (getLastColumn be (world s) h))"
  from header_reads_getHeadings[OF Suc.prems(1,2)] obtain cs where
    gh: "getHeadings be s = Inr (?hs, s\<lparr>sheet := Some h, sheetHeadings := ?hs, calls := calls s @ cs\<rparr>)"
    and cs: "filter is_header_read cs = [GetSheetValues h 1 1 1 (getLastColumn be (world s) h)]"
    by blast
  let ?s1 = "s\<lparr>sheet := Some h, sheetHeadings := ?hs, calls := calls s @ cs\<rparr>"
  have "fst (getSheet be ?s1) = Some h" by (simp add: getSheet_cached)
  moreover have "unloaded (sheetHeadings ?s1)" using Suc.prems(3) by simp
  moreover have "unloaded (first_row (getSheetValues be (world ?s1) h 1 1 1
                   (getLastColumn be (world ?s1) h)))"
    using Suc.prems(3) by simp
  ultimately obtain s' cs' where
    rep: "repeat_getHeadings be n ?s1 = Inr s'" and calls: "calls s' = calls ?s1 @ cs'"
    and len: "length (filter is_header_read cs') = n"
    using Suc.IH[of ?s1] by blast
  have "repeat_getHeadings be (Suc n) s = Inr s'"
    by (simp add: gh rep)
  moreover have "calls s' = calls s @ (cs @ cs')"
    using calls by simp
  moreover have "length (filter is_header_read (cs @ cs')) = Suc n"
    using cs len by simp
  ultimately show ?case by blast
qed

subsection \<open>The loops of getValues\<close>

lemma fill_row_Some:
  "fill_row (Some hs) cells numCols c ob =
     Inr (foldl (\<lambda>ob c. obj_set (to_property_key (js_nth hs c)) (js_nth cells c) ob)
            ob [c..<nat numCols])"
proof (induction "Some hs" cells numCols c ob rule: fill_row.induct)
  case (1 cells numCols c ob)
  show ?case
  proof (cases "int c < numCols")
    case True
    then have "[c..<nat numCols] = c # [Suc c..<nat numCols]"
      by (simp add: upt_conv_Cons)
    with True 1 show ?thesis
      by (subst fill_row.simps) simp
  next
    case False
    then show ?thesis
      by (subst fill_row.simps) simp
  qed
qed

lemma fill_row_None:
  "fill_row None cells numCols c ob = (if int c < numCols then Inl TypeError else Inr ob)"
  by (subst fill_row.simps) simp

lemma rows_loop_Some:
  "rows_loop (Some hs) block numCols r acc =
     Inr (acc @ map (\<lambda>i. spec_row hs numCols i (block ! i)) [r..<length block])"
proof (induction "Some hs" block numCols r acc rule: rows_loop.induct)
  case (1 block numCols r acc)
  show ?case
  proof (cases "r < length block")
    case True
    then have "[r..<length block] = r # [Suc r..<length block]"
      by (simp add: upt_conv_Cons)
    with True 1 show ?thesis
      by (subst rows_loop.simps) (simp add: fill_row_Some spec_row_def)
  next
    case False
    then show ?thesis
      by (subst rows_loop.simps) simp
  qed
qed

lemma rows_loop_None:
  "rows_loop None block numCols r acc =
     (if r < length block \<and> 0 < numCols then Inl TypeError
      else Inr (acc @ map (\<lambda>i. spec_row [] numCols i (block ! i)) [r..<length block]))"
proof (induction "None :: cell list option" block numCols r acc rule: rows_loop.induct)
  case (1 block numCols r acc)
  show ?case
  proof (cases "r < length block")
    case True
    then have "[r..<length block] = r # [Suc r..<length block]"
      by (simp add: upt_conv_Cons)
    with True 1 show ?thesis
      by (subst rows_loop.simps) (simp add: fill_row_None spec_row_no_columns)
  next
    case False
    then show ?thesis
      by (subst rows_loop.simps) simp
  qed
qed

lemma rows_loop_empty: "rows_loop headings [] numCols 0 [] = Inr []"
  by (subst rows_loop.simps) simp

subsection \<open>getValues and getRows\<close>

lemma getValues_cached: "sheetValues s = Some vs \<Longrightarrow> getValues be s = Inr (vs, s)"
  by (simp add: getValues_def)

lemma getValues_null:
  assumes "sheetValues s = None" and "fst (getSheet be s) = None"
  shows "getValues be s = Inl TypeError"
  using assms by (cases "getSheet be s") (simp add: getValues_def)

lemma getValues_load:
  assumes "sheetValues s = None" and "fst (getSheet be s) = Some h"
  shows "getValues be s =
     (case rows_loop (load_headings be s h)
             (getSheetValues be (world s) h 2 1 (getLastRow be (world s) h) (getLastColumn be (world s) h))
             (getLastColumn be (world s) h) 0 [] of
        Inl e \<Rightarrow> Inl e
      | Inr vs \<Rightarrow>
          Inr (vs, s\<lparr>sheet := Some h, sheetValues := Some vs,
                      sheetHeadings := load_headings be s h,
                      calls := calls s @ load_calls be s h\<rparr>))"
proof -
  let ?s1 = "s\<lparr>sheet := Some h,
      calls := calls s @ (case sheet s of None \<Rightarrow> [GetSheetByName (sheetName s)] | Some x \<Rightarrow> [])\<rparr>"
  let ?C = "getLastColumn be (world s) h"
  let ?L = "getLastRow be (world s) h"
  let ?s4 = "logged (GetSheetValues h 2 1 ?L ?C) (logged (GetLastRow h) (logged (GetLastColumn h) ?s1))"
  have gs: "getSheet be s = (Some h, ?s1)"
    by (rule getSheet_resolved[OF assms(2)])
  have s4: "sheet ?s4 = Some h" "world ?s4 = world s" "sheetHeadings ?s4 = sheetHeadings s"
    by simp_all
  have gh: "getHeadings be ?s4 =
      Inr (load_headings be s h,
           ?s4\<lparr>sheetHeadings := load_headings be s h,
                calls := calls ?s4 @ (if unloaded (sheetHeadings s)
                   then [GetLastColumn h, GetSheetValues h 1 1 1 ?C] else [])\<rparr>)"
  proof (cases "unloaded (sheetHeadings s)")
    case True
    have "fst (getSheet be ?s4) = Some h"
      by (simp add: getSheet_cached)
    from getHeadings_load[OF _ this] True show ?thesis
      by (simp add: load_headings_def)
  next
    case False
    then show ?thesis
      by (simp add: getHeadings_loaded load_headings_def)
  qed
  have "getValues be s =
      (case getHeadings be ?s4 of
         Inl e \<Rightarrow> Inl e
       | Inr (headings, s5) \<Rightarrow>
           (case rows_loop headings (getSheetValues be (world s) h 2 1 ?L ?C) ?C 0 [] of
              Inl e \<Rightarrow> Inl e
            | Inr rowValues \<Rightarrow> Inr (rowValues, s5\<lparr>sheetValues := Some rowValues\<rparr>)))"
    using assms(1) by (simp add: getValues_def gs Let_def split: sum.split prod.split)
  also have "\<dots> =
      (case rows_loop (load_headings be s h) (getSheetValues be (world s) h 2 1 ?L ?C) ?C 0 [] of
         Inl e \<Rightarrow> Inl e
       | Inr vs \<Rightarrow>
           Inr (vs, s\<lparr>sheet := Some h, sheetValues := Some vs,
                       sheetHeadings := load_headings be s h,
                       calls := calls s @ load_calls be s h\<rparr>))"
    unfolding gh by (simp add: load_calls_def logged_def split: sum.split)
  finally show ?thesis .
qed

lemma block_reads_load_calls:
  "filter is_block_read (load_calls be s h) =
     [GetSheetValues h 2 1 (getLastRow be (world s) h) (getLastColumn be (world s) h)]"
  by (simp add: load_calls_def split: option.split)

lemma no_writes_in_load_calls:
  "filter is_delete (load_calls be s h) = []" "filter is_write (load_calls be s h) = []"
  by (simp_all add: load_calls_def split: option.split)

lemma getValues_load_Inr:
  assumes "sheetValues s = None" and "fst (getSheet be s) = Some h"
      and "getValues be s = Inr (rows, s1)"
  shows "s1 = s\<lparr>sheet := Some h, sheetValues := Some rows,
                 sheetHeadings := load_headings be s h,
                 calls := calls s @ load_calls be s h\<rparr>"
  using assms(3) unfolding getValues_load[OF assms(1,2)]
  by (auto split: sum.splits)

lemma getValues_Inr_resolves:
  assumes "sheetValues s = None" and "getValues be s = Inr (rows, s1)"
  obtains h where "fst (getSheet be s) = Some h"
  using assms getValues_null[of s be] by (cases "fst (getSheet be s)") auto

lemma getValues_Inr_fields:
  assumes "getValues be s = Inr (vs, s1)"
  shows "sheetValues s1 = Some vs" and "whereFn s1 = whereFn s" and "world s1 = world s"
    and "sheetName s1 = sheetName s"
proof -
  have "sheetValues s1 = Some vs \<and> whereFn s1 = whereFn s \<and> world s1 = world s \<and>
        sheetName s1 = sheetName s"
  proof (cases "sheetValues s")
    case (Some cache)
    with assms show ?thesis by (simp add: getValues_cached)
  next
    case None
    from None assms obtain h where h: "fst (getSheet be s) = Some h"
      by (rule getValues_Inr_resolves)
    show ?thesis
      by (subst (1 2 3 4) getValues_load_Inr[OF None h assms]) simp
  qed
  then show "sheetValues s1 = Some vs" and "whereFn s1 = whereFn s" and "world s1 = world s"
    and "sheetName s1 = sheetName s"
    by simp_all
qed

lemma getValues_Inr_sheet:
  assumes "getValues be s = Inr (vs, s1)" and "sheet s = Some h \<or> sheetValues s = None"
  shows "sheet s1 \<noteq> None" and "sheet s = Some h \<Longrightarrow> sheet s1 = Some h"
proof -
  have "sheet s1 \<noteq> None \<and> (sheet s = Some h \<longrightarrow> sheet s1 = Some h)"
  proof (cases "sheetValues s")
    case (Some cache)
    with assms show ?thesis by (auto simp: getValues_cached)
  next
    case None
    from None assms(1) obtain h' where h': "fst (getSheet be s) = Some h'"
      by (rule getValues_Inr_resolves)
    have "sheet s1 = Some h'"
      by (subst getValues_load_Inr[OF None h' assms(1)]) simp
    moreover have "sheet s = Some h \<longrightarrow> h' = h"
      using h' by (auto simp: getSheet_cached)
    ultimately show ?thesis by simp
  qed
  then show "sheet s1 \<noteq> None" and "sheet s = Some h \<Longrightarrow> sheet s1 = Some h"
    by simp_all
qed

lemma getRows_Inr:
  assumes "getRows be s = Inr (rows, s1)"
  obtains cache where "getValues be s = Inr (cache, s1)"
    and "rows = (case whereFn s of None \<Rightarrow> cache | Some fn \<Rightarrow> filter fn cache)"
proof -
  from assms obtain cache s' where gv: "getValues be s = Inr (cache, s')"
    by (auto simp: getRows_def split: sum.splits)
  note f = getValues_Inr_fields[OF gv]
  from assms gv f(2) have "s' = s1"
    and "rows = (case whereFn s of None \<Rightarrow> cache | Some fn \<Rightarrow> filter fn cache)"
    by (auto simp: getRows_def split: option.splits)
  with gv that show ?thesis by simp
qed

lemma getRows_Inr_sheet:
  assumes "getRows be s = Inr (rows, s1)" and "sheet s = Some h \<or> sheetValues s = None"
  shows "sheet s1 \<noteq> None"
proof -
  from assms(1) obtain cache where "getValues be s = Inr (cache, s1)"
    by (rule getRows_Inr)
  from getValues_Inr_sheet(1)[OF this assms(2)] show ?thesis .
qed

subsection \<open>The loops of the mutating operations\<close>


lemma deleteRows_loop_keeps:
  "deleteRows_loop be rows i s = Inr s' \<Longrightarrow> sheet s' = sheet s"
proof (induction rows arbitrary: i s)
  case Nil
  then show ?case by simp
next
  case (Cons row rows)
  then show ?case
    by (auto simp: Let_def split: option.splits if_splits)
qed


lemma updateRows_loop_keeps:
  "updateRows_loop be fn rows s = Inr s' \<Longrightarrow> sheet s' = sheet s"
proof (induction rows arbitrary: s)
  case Nil
  then show ?case by simp
next
  case (Cons row rows)
  then show ?case
    by (auto simp: Let_def split: option.splits if_splits)
qed


lemma updated_values_replacement:
  assumes "fst (updateFn row) = Some u" and "truthy (obj_get u ''__meta'')"
  shows "updated_values updateFn row = obj_values (obj_delete ''__meta'' u)"
  using assms by (cases "updateFn row") (auto simp: updated_values_def)


section \<open>The example tables, evaluated\<close>

lemma upt_numeral_unfold:
  "[m..<numeral n] = (if m < numeral n then m # [Suc m..<numeral n] else [])"
  by (rule upt_rec)

lemma grid_store_writes:
  "deleteCells grid_store w h (Num k) c n m = take (nat (k - 1)) w @ drop (nat (k - 1) + nat n) w"
  "deleteCells grid_store w h NaN c n m = w"
  "setValues grid_store w h None c n m vs = w"
  "setValues grid_store w h (Some k) c n m (v # rest) =
     (if 1 \<le> k \<and> nat k \<le> length w then w[nat (k - 1) := map stored v] else w)"
  "appendRow grid_store w h cells = w @ [map stored cells]"
  "flush grid_store w = w"
  by (simp_all add: grid_store_def)

lemma spec_row_A_B:
  "spec_row [CStr ''A'', CStr ''B''] 2 r [a, b] =
     [(''__meta'', JMeta (int r + 2) 2), (''A'', element_value (Some a)),
      (''B'', element_value (Some b))]"
  by (simp add: spec_row_def js_nth_def obj_set_def array_index_def digit_val_def
      upt_numeral_unfold)

lemma spec_row_AB:
  "spec_row [CStr ''A'', CStr ''B''] 2 0 [CNum 1, CNum 2] =
     [(''__meta'', JMeta 2 2), (''A'', JNum 1), (''B'', JNum 2)]"
  by (simp add: spec_row_def js_nth_def obj_set_def array_index_def digit_val_def
      upt_numeral_unfold)

subsection \<open>Headings A, B and one data row\<close>

lemma query_AB_fields:
  "sheet query_AB = None" "sheetValues query_AB = None" "sheetHeadings query_AB = Some []"
  "world query_AB = table_AB" "calls query_AB = []" "sheetName query_AB = Some ''Data''"
  "whereFn query_AB = None"
  by (simp_all add: query_AB_def from_sheet_def sheetQuery_def)

lemma resolve_AB: "fst (getSheet grid_store query_AB) = Some 0"
  by (simp add: getSheet_def query_AB_fields grid_store_def Let_def)

lemma grid_AB:
  "getLastColumn grid_store table_AB 0 = 2"
  "getLastRow grid_store table_AB 0 = 2"
  "getSheetValues grid_store table_AB 0 2 1 2 2 = [[CNum 1, CNum 2]]"
  "getSheetValues grid_store table_AB 0 1 1 1 2 = [[CStr ''A'', CStr ''B'']]"
  by (simp_all add: grid_store_def table_AB_def)

lemma load_AB:
  "load_headings grid_store query_AB 0 = Some [CStr ''A'', CStr ''B'']"
  "load_calls grid_store query_AB 0 =
     [GetSheetByName (Some ''Data''), GetLastColumn 0, GetLastRow 0,
      GetSheetValues 0 2 1 2 2, GetLastColumn 0, GetSheetValues 0 1 1 1 2]"
  by (simp_all add: load_headings_def load_calls_def query_AB_fields grid_AB)

lemma getValues_AB: "getValues grid_store query_AB = Inr (rows_AB, loaded_AB)"
  by (simp add: getValues_load[OF query_AB_fields(2) resolve_AB] query_AB_fields grid_AB
      load_AB rows_loop_Some spec_row_AB rows_AB_def loaded_AB_def)

lemma loaded_AB_fields:
  "sheet loaded_AB = Some 0" "sheetValues loaded_AB = Some rows_AB"
  "whereFn loaded_AB = None" "world loaded_AB = table_AB"
  "sheetHeadings loaded_AB = Some [CStr ''A'', CStr ''B'']"
  by (simp_all add: loaded_AB_def query_AB_fields)

lemma getRows_AB: "getRows grid_store query_AB = Inr (rows_AB, loaded_AB)"
  by (simp add: getRows_def getValues_AB loaded_AB_fields)



lemma getHeadings_loaded_AB: "getHeadings grid_store loaded_AB = Inr (Some [CStr ''A'', CStr ''B''], loaded_AB)"
  by (simp add: getHeadings_loaded loaded_AB_fields)

lemma deleteRows_AB: "deleteRows grid_store query_AB = Inr ((), deleted_AB)"
  by (simp add: deleteRows_def getRows_AB rows_AB_def loaded_AB_fields obj_get_def
      Let_def clearCache_def logged_def deleted_AB_def grid_store_writes table_AB_def)


lemma updateRows_AB_same: "updateRows grid_store no_update query_AB = Inr ((), rewritten_AB)"
  by (simp add: updateRows_def getRows_AB rows_AB_def loaded_AB_fields obj_get_def
      Let_def clearCache_def logged_def rewritten_AB_def grid_store_writes table_AB_def
      updated_values_def no_update_def obj_delete_def obj_values_def)


lemma insertRows_loaded_AB:
  "insertRows grid_store [[(''A'', JNum 5), (''B'', JNum 6)]] loaded_AB = Inr ((), inserted_AB)"
  by (simp add: insertRows_def getSheet_cached loaded_AB_fields getHeadings_loaded_AB
      insert_cell_def obj_get_def Let_def logged_def grid_store_writes inserted_AB_def)

subsection \<open>Data rows at positions 2 to 5\<close>

lemma query_four_fields:
  "sheet query_four = None" "sheetValues query_four = None" "sheetHeadings query_four = Some []"
  "world query_four = table_four" "calls query_four = []" "sheetName query_four = Some ''Data''"
  "whereFn query_four = Some at_2_or_4"
  by (simp_all add: query_four_def from_sheet_def where_rows_def sheetQuery_def)

lemma resolve_four: "fst (getSheet grid_store query_four) = Some 0"
  by (simp add: getSheet_def query_four_fields grid_store_def Let_def)

lemma grid_four:
  "getLastColumn grid_store table_four 0 = 2"
  "getLastRow grid_store table_four 0 = 5"
  "getSheetValues grid_store table_four 0 2 1 5 2 =
     [[CNum 1, CNum 10], [CNum 2, CNum 20], [CNum 3, CNum 30], [CNum 4, CNum 40]]"
  "getSheetValues grid_store table_four 0 1 1 1 2 = [[CStr ''A'', CStr ''B'']]"
  by (simp_all add: grid_store_def table_four_def)

lemma load_four:
  "load_headings grid_store query_four 0 = Some [CStr ''A'', CStr ''B'']"
  "load_calls grid_store query_four 0 =
     [GetSheetByName (Some ''Data''), GetLastColumn 0, GetLastRow 0,
      GetSheetValues 0 2 1 5 2, GetLastColumn 0, GetSheetValues 0 1 1 1 2]"
  by (simp_all add: load_headings_def load_calls_def query_four_fields grid_four)

lemma getValues_four: "getValues grid_store query_four = Inr (rows_four, loaded_four)"
  by (simp add: getValues_load[OF query_four_fields(2) resolve_four] query_four_fields grid_four
      load_four rows_loop_Some spec_row_A_B rows_four_def loaded_four_def upt_numeral_unfold)

lemma loaded_four_fields:
  "sheet loaded_four = Some 0" "sheetValues loaded_four = Some rows_four"
  "whereFn loaded_four = Some at_2_or_4" "world loaded_four = table_four"
  by (simp_all add: loaded_four_def query_four_fields)

lemma getRows_four: "getRows grid_store query_four = Inr (matched_four, loaded_four)"
  by (simp add: getRows_def getValues_four loaded_four_fields rows_four_def matched_four_def
      at_2_or_4_def obj_get_def)

lemma deleteRows_four: "deleteRows grid_store query_four = Inr ((), deleted_four)"
  by (simp add: deleteRows_def getRows_four matched_four_def loaded_four_fields obj_get_def
      Let_def clearCache_def logged_def deleted_four_def grid_store_writes table_four_def)

subsection \<open>Header only, and a header without columns\<close>

lemma query_header_only_fields:
  "sheet query_header_only = None" "sheetValues query_header_only = None"
  "sheetHeadings query_header_only = Some []" "world query_header_only = table_header_only"
  "calls query_header_only = []" "sheetName query_header_only = Some ''Data''"
  "whereFn query_header_only = None"
  by (simp_all add: query_header_only_def from_sheet_def sheetQuery_def)

lemma resolve_header_only: "fst (getSheet grid_store query_header_only) = Some 0"
  by (simp add: getSheet_def query_header_only_fields grid_store_def Let_def)

lemma query_blank_fields:
  "sheet query_blank = None" "sheetValues query_blank = None"
  "sheetHeadings query_blank = Some []" "world query_blank = table_blank"
  "calls query_blank = []" "sheetName query_blank = Some ''Data''"
  by (simp_all add: query_blank_def from_sheet_def sheetQuery_def)

lemma resolve_blank: "fst (getSheet grid_store query_blank) = Some 0"
  by (simp add: getSheet_def query_blank_fields grid_store_def Let_def)

lemma grid_blank:
  "getLastColumn grid_store table_blank 0 = 0"
  "getSheetValues grid_store table_blank 0 1 1 1 0 = [[]]"
  by (simp_all add: grid_store_def table_blank_def)

subsection \<open>The store that returns the requested rectangle\<close>

lemma sheet_store_fields:
  "getSheetByName sheet_store = getSheetByName grid_store"
  "getLastRow sheet_store = getLastRow grid_store"
  "getLastColumn sheet_store = getLastColumn grid_store"
  "deleteCells sheet_store = deleteCells grid_store"
  "setValues sheet_store = setValues grid_store"
  "appendRow sheet_store = appendRow grid_store"
  "flush sheet_store = flush grid_store"
  by (simp_all add: sheet_store_def)

lemma sheet_store_block:
  "getSheetValues sheet_store w h r c n m =
     map (\<lambda>i. map (\<lambda>j. cell_at w (nat (r - 1) + i) (nat (c - 1) + j)) [0..<nat m]) [0..<nat n]"
  by (simp add: sheet_store_def)

lemma sheet_resolve_AB: "fst (getSheet sheet_store query_AB) = Some 0"
  by (simp add: getSheet_def query_AB_fields sheet_store_fields grid_store_def Let_def)

lemma sheet_AB:
  "getLastColumn sheet_store table_AB 0 = 2"
  "getLastRow sheet_store table_AB 0 = 2"
  "getSheetValues sheet_store table_AB 0 2 1 2 2 = [[CNum 1, CNum 2], [CStr '''', CStr '''']]"
  "getSheetValues sheet_store table_AB 0 1 1 1 2 = [[CStr ''A'', CStr ''B'']]"
  by (simp_all add: sheet_store_fields sheet_store_block grid_store_def table_AB_def
      cell_at_def upt_numeral_unfold)

lemma sheet_load_AB:
  "load_headings sheet_store query_AB 0 = Some [CStr ''A'', CStr ''B'']"
  "load_calls sheet_store query_AB 0 =
     [GetSheetByName (Some ''Data''), GetLastColumn 0, GetLastRow 0,
      GetSheetValues 0 2 1 2 2, GetLastColumn 0, GetSheetValues 0 1 1 1 2]"
  by (simp_all add: load_headings_def load_calls_def query_AB_fields sheet_AB)

lemma sheet_getValues_AB:
  "getValues sheet_store query_AB =
     Inr ([[(''__meta'', JMeta 2 2), (''A'', JNum 1), (''B'', JNum 2)],
           [(''__meta'', JMeta 3 2), (''A'', JStr ''''), (''B'', JStr '''')]], padded_AB)"
  by (simp add: getValues_load[OF query_AB_fields(2) sheet_resolve_AB] query_AB_fields sheet_AB
      sheet_load_AB rows_loop_Some spec_row_A_B padded_AB_def upt_numeral_unfold)

lemma sheet_resolve_header_only: "fst (getSheet sheet_store query_header_only) = Some 0"
  by (simp add: getSheet_def query_header_only_fields sheet_store_fields grid_store_def Let_def)

lemma sheet_header_only:
  "getLastColumn sheet_store table_header_only 0 = 2"
  "getLastRow sheet_store table_header_only 0 = 1"
  "getSheetValues sheet_store table_header_only 0 2 1 1 2 = [[CStr '''', CStr '''']]"
  "getSheetValues sheet_store table_header_only 0 1 1 1 2 = [[CStr ''A'', CStr ''B'']]"
  by (simp_all add: sheet_store_fields sheet_store_block grid_store_def table_header_only_def
      cell_at_def upt_numeral_unfold)

lemma sheet_load_header_only:
  "load_headings sheet_store query_header_only 0 = Some [CStr ''A'', CStr ''B'']"
  "load_calls sheet_store query_header_only 0 =
     [GetSheetByName (Some ''Data''), GetLastColumn 0, GetLastRow 0,
      GetSheetValues 0 2 1 1 2, GetLastColumn 0, GetSheetValues 0 1 1 1 2]"
  by (simp_all add: load_headings_def load_calls_def query_header_only_fields sheet_header_only)

lemma sheet_getValues_header_only:
  "getValues sheet_store query_header_only =
     Inr ([[(''__meta'', JMeta 2 2), (''A'', JStr ''''), (''B'', JStr '''')]], loaded_header_only)"
  by (simp add: getValues_load[OF query_header_only_fields(2) sheet_resolve_header_only]
      query_header_only_fields sheet_header_only sheet_load_header_only rows_loop_Some
      spec_row_A_B loaded_header_only_def)

lemma loaded_header_only_fields:
  "sheet loaded_header_only = Some 0"
  "sheetValues loaded_header_only =
     Some [[(''__meta'', JMeta 2 2), (''A'', JStr ''''), (''B'', JStr '''')]]"
  "whereFn loaded_header_only = None" "world loaded_header_only = table_header_only"
  by (simp_all add: loaded_header_only_def query_header_only_fields)

lemma sheet_getRows_header_only:
  "getRows sheet_store query_header_only =
     Inr ([[(''__meta'', JMeta 2 2), (''A'', JStr ''''), (''B'', JStr '''')]], loaded_header_only)"
  by (simp add: getRows_def sheet_getValues_header_only loaded_header_only_fields)

lemma sheet_deleteRows_header_only:
  "deleteRows sheet_store query_header_only = Inr ((), deleted_header_only)"
  by (simp add: deleteRows_def sheet_getRows_header_only loaded_header_only_fields obj_get_def
      Let_def clearCache_def logged_def deleted_header_only_def sheet_store_fields
      grid_store_writes table_header_only_def)

lemma sheet_updateRows_header_only:
  "updateRows sheet_store no_update query_header_only = Inr ((), rewritten_header_only)"
  by (simp add: updateRows_def sheet_getRows_header_only loaded_header_only_fields obj_get_def
      Let_def clearCache_def logged_def rewritten_header_only_def sheet_store_fields
      grid_store_writes table_header_only_def updated_values_def no_update_def obj_delete_def
      obj_values_def)

subsection \<open>A heading that names a member of \<open>Object.prototype\<close>\<close>







section \<open>Reading rows\<close>

text \<open>
  What \<open>getValues\<close> does with the block it receives. On a builder with no cached rows
  whose table resolves to \<open>h\<close>, it issues the block read of \<open>load_calls\<close> and turns the
  row at offset \<open>r\<close> of the returned block into the record \<open>spec_row\<close> describes. It
  caches that sequence and returns it. The only failure is the \<open>TypeError\<close> of indexing
  undefined headings, which needs a header read that returned no row at all, a non-empty
  block and a positive column count.
\<close>

lemma getValues_materializes:
  assumes "sheetValues s = None" and "fst (getSheet be s) = Some h"
      and "C = getLastColumn be (world s) h" and "L = getLastRow be (world s) h"
      and "block = getSheetValues be (world s) h 2 1 L C"
      and "hs = (case load_headings be s h of None \<Rightarrow> [] | Some xs \<Rightarrow> xs)"
      and "rows = map (\<lambda>r. spec_row hs C r (block ! r)) [0..<length block]"
  shows "getValues be s =
           (if load_headings be s h = None \<and> block \<noteq> [] \<and> 0 < C then Inl TypeError
            else Inr (rows, s\<lparr>sheet := Some h, sheetValues := Some rows,
                              sheetHeadings := load_headings be s h,
                              calls := calls s @ load_calls be s h\<rparr>))"
proof (cases "load_headings be s h")
  case None
  then have hs: "hs = []" using assms(6) by simp
  show ?thesis
    unfolding getValues_load[OF assms(1,2)]
    using None assms(3,4,5,7) hs by (simp add: rows_loop_None)
next
  case (Some xs)
  then have hs: "hs = xs" using assms(6) by simp
  show ?thesis
    unfolding getValues_load[OF assms(1,2)]
    using Some assms(3,4,5,7) hs by (simp add: rows_loop_Some)
qed

text \<open>
  C2. The block \<open>getValues\<close> reads does not end at the table's last row, and the table
  with headings A, B and the single data row 1, 2 does not yield exactly one record.
  That table has last row 2 and last column 2. In the store whose block read returns the
  requested rectangle, the one block read \<open>getRows\<close> issues is
  \<open>getSheetValues(2, 1, 2, 2)\<close>: two rows starting at row 2, which are row 2 and the
  blank row 3 below the last row. The block has two rows and \<open>getRows\<close> returns two
  records: \<open>{ __meta: { row: 2, cols: 2 }, A: 1, B: 2 }\<close> and, made from the blank row,
  \<open>{ __meta: { row: 3, cols: 2 }, A: '', B: '' }\<close>. The third argument of
  \<open>getSheetValues\<close> is a number of rows (the header read is
  \<open>getSheetValues(1, 1, 1, numCols)\<close>), and \<open>getValues\<close> passes \<open>getLastRow()\<close> there
  while starting at row 2.
\<close>

theorem getValues_reads_past_last_row:
  "getLastRow sheet_store (world query_AB) 0 = 2 \<and>
   getLastColumn sheet_store (world query_AB) 0 = 2 \<and>
   getSheetValues sheet_store (world query_AB) 0 2 1 2 2 =
     [[CNum 1, CNum 2], [CStr '''', CStr '''']] \<and>
   getRows sheet_store query_AB =
     Inr ([[(''__meta'', JMeta 2 2), (''A'', JNum 1), (''B'', JNum 2)],
           [(''__meta'', JMeta 3 2), (''A'', JStr ''''), (''B'', JStr '''')]], padded_AB) \<and>
   filter is_block_read (new_calls query_AB padded_AB) = [GetSheetValues 0 2 1 2 2]"
proof -
  have "getRows sheet_store query_AB =
     Inr ([[(''__meta'', JMeta 2 2), (''A'', JNum 1), (''B'', JNum 2)],
           [(''__meta'', JMeta 3 2), (''A'', JStr ''''), (''B'', JStr '''')]], padded_AB)"
    by (simp add: getRows_def sheet_getValues_AB) (simp add: padded_AB_def query_AB_fields)
  moreover have "filter is_block_read (new_calls query_AB padded_AB) = [GetSheetValues 0 2 1 2 2]"
    by (simp add: new_calls_def padded_AB_def query_AB_fields)
  ultimately show ?thesis
    by (simp add: query_AB_fields sheet_AB)
qed

text \<open>
  C8. When \<open>getValues\<close> is called on a builder with no cached rows and returns, a second
  call returns the same sequence and leaves the state, and with it the record of calls,
  as it was: it does not touch the backing store. The two calls together issue exactly
  one read of the data block. (The first call also reads the header row when no headings
  are cached; that read is counted apart.)
\<close>

theorem getValues_twice_one_block_read:
  assumes "sheetValues s = None" and "getValues be s = Inr (rows, s1)"
  shows "getValues be s1 = Inr (rows, s1) \<and>
         length (filter is_block_read (new_calls s s1)) = 1"
proof -
  from assms obtain h where h: "fst (getSheet be s) = Some h"
    by (rule getValues_Inr_resolves)
  note s1 = getValues_load_Inr[OF assms(1) h assms(2)]
  have "sheetValues s1 = Some rows"
    by (subst s1) simp
  then have second: "getValues be s1 = Inr (rows, s1)"
    by (rule getValues_cached)
  have "calls s1 = calls s @ load_calls be s h"
    by (subst s1) simp
  then have "new_calls s s1 = load_calls be s h"
    by simp
  then have "length (filter is_block_read (new_calls s s1)) = 1"
    by (simp add: block_reads_load_calls)
  with second show ?thesis by simp
qed

theorem getValues_twice_one_block_read_witness:
  "sheetValues query_AB = None \<and>
   getValues grid_store query_AB = Inr (rows_AB, loaded_AB) \<and>
   getValues grid_store loaded_AB = Inr (rows_AB, loaded_AB) \<and>
   length (filter is_block_read (new_calls query_AB loaded_AB)) = 1"
  using getValues_twice_one_block_read[OF query_AB_fields(2) getValues_AB]
  by (simp add: query_AB_fields getValues_AB)

text \<open>
  C9. When the table handle \<open>h\<close> reports \<open>L\<close> as its last row and \<open>C\<close> as its last
  column, the one block read \<open>getValues\<close> issues is \<open>getSheetValues(2, 1, L, C)\<close>: it
  starts at row 2, column 1 and asks for \<open>L\<close> rows and \<open>C\<close> columns. \<open>L\<close> counts the
  header row, so the request is for one row more than the data rows below the header.
\<close>

theorem getValues_requests_last_row_count:
  assumes "sheetValues s = None" and "fst (getSheet be s) = Some h"
      and "getLastRow be (world s) h = L" and "getLastColumn be (world s) h = C"
      and "getValues be s = Inr (rows, s1)"
  shows "filter is_block_read (new_calls s s1) = [GetSheetValues h 2 1 L C] \<and>
         L = dataRowCount be (world s) h + 1"
proof -
  note s1 = getValues_load_Inr[OF assms(1,2,5)]
  have "calls s1 = calls s @ load_calls be s h"
    by (subst s1) simp
  then have "new_calls s s1 = load_calls be s h"
    by simp
  then show ?thesis
    using assms(3,4) by (simp add: block_reads_load_calls dataRowCount_def)
qed

theorem getValues_requests_last_row_count_witness:
  "sheetValues query_AB = None \<and> fst (getSheet grid_store query_AB) = Some 0 \<and>
   getLastRow grid_store (world query_AB) 0 = 2 \<and>
   getLastColumn grid_store (world query_AB) 0 = 2 \<and>
   getValues grid_store query_AB = Inr (rows_AB, loaded_AB) \<and>
   filter is_block_read (new_calls query_AB loaded_AB) = [GetSheetValues 0 2 1 2 2] \<and>
   (2 :: int) = dataRowCount grid_store (world query_AB) 0 + 1"
proof -
  have L: "getLastRow grid_store (world query_AB) 0 = 2"
    and C: "getLastColumn grid_store (world query_AB) 0 = 2"
    by (simp_all add: query_AB_fields grid_AB)
  from getValues_requests_last_row_count[OF query_AB_fields(2) resolve_AB L C getValues_AB]
  show ?thesis
    by (simp add: query_AB_fields resolve_AB grid_AB getValues_AB)
qed

text \<open>
  The records follow the block the store returns, one record per returned row, whatever
  the number of data rows is.
\<close>

lemma getValues_one_record_per_returned_row:
  assumes "sheetValues s = None" and "fst (getSheet be s) = Some h"
      and "getValues be s = Inr (rows, s1)"
  shows "length rows =
         length (getSheetValues be (world s) h 2 1 (getLastRow be (world s) h)
                   (getLastColumn be (world s) h))"
proof (cases "load_headings be s h")
  case None
  with assms(3) show ?thesis
    unfolding getValues_load[OF assms(1,2)]
    by (auto simp: rows_loop_None split: if_splits)
next
  case (Some hs)
  with assms(3) show ?thesis
    unfolding getValues_load[OF assms(1,2)]
    by (auto simp: rows_loop_Some)
qed

text \<open>
  C10. \<open>getHeadings\<close> takes an absent heading list and an empty one alike as not loaded
  (\<open>unloaded\<close>): on either, when the table resolves to \<open>h\<close>, it returns after one header
  read \<open>getSheetValues(1, 1, 1, lastColumn)\<close>. \<open>clearCache\<close> leaves the headings
  unloaded, so the next call reads again. When the header read yields no columns (or no
  row), the headings stay unloaded after the call: \<open>n\<close> calls in a row perform \<open>n\<close> header
  reads, for every \<open>n\<close>.
\<close>

theorem getHeadings_rereads_when_empty:
  assumes "fst (getSheet be s) = Some h" and "unloaded (sheetHeadings s)"
  shows "(\<exists>hs s1. getHeadings be s = Inr (hs, s1) \<and>
            filter is_header_read (new_calls s s1) =
              [GetSheetValues h 1 1 1 (getLastColumn be (world s) h)]) \<and>
         (unloaded (first_row (getSheetValues be (world s) h 1 1 1
                                 (getLastColumn be (world s) h))) \<longrightarrow>
          (\<exists>s'. repeat_getHeadings be n s = Inr s' \<and>
                length (filter is_header_read (new_calls s s')) = n)) \<and>
         unloaded None \<and> unloaded (Some []) \<and> unloaded (sheetHeadings (clearCache be s0))"
proof (intro conjI impI)
  from header_reads_getHeadings[OF assms] obtain cs where
    gh: "getHeadings be s =
            Inr (first_row (getSheetValues be (world s) h 1 1 1 (getLastColumn be (world s) h)),
                 s\<lparr>sheet := Some h,
                   sheetHeadings := first_row (getSheetValues be (world s) h 1 1 1
                                      (getLastColumn be (world s) h)),
                   calls := calls s @ cs\<rparr>)"
    and cs: "filter is_header_read cs = [GetSheetValues h 1 1 1 (getLastColumn be (world s) h)]"
    by blast
  have "new_calls s (s\<lparr>sheet := Some h,
                   sheetHeadings := first_row (getSheetValues be (world s) h 1 1 1
                                      (getLastColumn be (world s) h)),
                   calls := calls s @ cs\<rparr>) = cs"
    by (rule new_calls_append) simp
  with gh cs show "\<exists>hs s1. getHeadings be s = Inr (hs, s1) \<and>
            filter is_header_read (new_calls s s1) =
              [GetSheetValues h 1 1 1 (getLastColumn be (world s) h)]"
    by auto
next
  assume "unloaded (first_row (getSheetValues be (world s) h 1 1 1 (getLastColumn be (world s) h)))"
  from repeat_getHeadings_empty[OF assms this, of n] obtain s' cs where
    "repeat_getHeadings be n s = Inr s'" "calls s' = calls s @ cs"
    "length (filter is_header_read cs) = n"
    by blast
  then show "\<exists>s'. repeat_getHeadings be n s = Inr s' \<and>
                length (filter is_header_read (new_calls s s')) = n"
    by auto
qed simp_all

theorem getHeadings_rereads_when_empty_witness:
  "fst (getSheet grid_store query_blank) = Some 0 \<and>
   unloaded (sheetHeadings query_blank) \<and>
   unloaded (first_row (getSheetValues grid_store (world query_blank) 0 1 1 1
                          (getLastColumn grid_store (world query_blank) 0))) \<and>
   map_sum id (\<lambda>s'. length (filter is_header_read (calls s')))
     (repeat_getHeadings grid_store 3 query_blank) = Inr 3"
proof -
  have u: "unloaded (sheetHeadings query_blank)"
    by (simp add: query_blank_fields)
  have e: "unloaded (first_row (getSheetValues grid_store (world query_blank) 0 1 1 1
                          (getLastColumn grid_store (world query_blank) 0)))"
    by (simp add: query_blank_fields grid_blank)
  from getHeadings_rereads_when_empty[OF resolve_blank u, of 3] e
  have "map_sum id (\<lambda>s'. length (filter is_header_read (calls s')))
     (repeat_getHeadings grid_store 3 query_blank) = Inr 3"
    by (auto simp: new_calls_def query_blank_fields)
  with u e resolve_blank show ?thesis by blast
qed

text \<open>
  When the read of the data block returns no rows, \<open>getValues\<close> returns the empty
  sequence and raises nothing, and \<open>deleteRows\<close> and \<open>updateRows\<close> return without a
  positional delete or write among the calls they issue: after the calls of the load
  they issue the flush and nothing else, with the cached rows cleared and the headings
  reset to the empty list.
\<close>

lemma empty_block_no_writes:
  assumes "sheetValues s = None" and "fst (getSheet be s) = Some h"
      and "getSheetValues be (world s) h 2 1 (getLastRow be (world s) h)
             (getLastColumn be (world s) h) = []"
  shows "\<exists>s1 s2 s3.
           getValues be s = Inr ([], s1) \<and>
           deleteRows be s = Inr ((), s2) \<and>
           new_calls s s2 = load_calls be s h @ [Flush] \<and>
           filter is_delete (new_calls s s2) = [] \<and> filter is_write (new_calls s s2) = [] \<and>
           sheetValues s2 = None \<and> sheetHeadings s2 = Some [] \<and>
           updateRows be updateFn s = Inr ((), s3) \<and>
           new_calls s s3 = load_calls be s h @ [Flush] \<and>
           filter is_delete (new_calls s s3) = [] \<and> filter is_write (new_calls s s3) = [] \<and>
           sheetValues s3 = None \<and> sheetHeadings s3 = Some []"
proof -
  let ?s1 = "s\<lparr>sheet := Some h, sheetValues := Some [],
                 sheetHeadings := load_headings be s h,
                 calls := calls s @ load_calls be s h\<rparr>"
  have gv: "getValues be s = Inr ([], ?s1)"
    by (simp add: getValues_load[OF assms(1,2)] assms(3) rows_loop_empty)
  have gr: "getRows be s = Inr ([], ?s1)"
    by (simp add: getRows_def gv split: option.split)
  have del: "deleteRows be s = Inr ((), clearCache be ?s1)"
    by (simp add: deleteRows_def gr)
  have upd: "updateRows be updateFn s = Inr ((), clearCache be ?s1)"
    by (simp add: updateRows_def gr)
  have nc: "new_calls s (clearCache be ?s1) = load_calls be s h @ [Flush]"
    by (rule new_calls_append) simp
  have "filter is_delete (new_calls s (clearCache be ?s1)) = []"
    and "filter is_write (new_calls s (clearCache be ?s1)) = []"
    by (simp_all add: nc no_writes_in_load_calls)
  with gv del upd nc show ?thesis
    by (intro exI[of _ ?s1] exI[of _ "clearCache be ?s1"]) simp
qed

text \<open>
  C3. A table with only a header row does not yield the empty sequence, and
  \<open>deleteRows\<close> and \<open>updateRows\<close> do write to it. The table with the header row A, B
  and no data row has last row 1. In the store whose block read returns the requested
  rectangle, the block read is \<open>getSheetValues(2, 1, 1, 2)\<close>: one row starting at row 2,
  the blank row below the header. \<open>getValues\<close> returns one record made from it,
  \<open>{ __meta: { row: 2, cols: 2 }, A: '', B: '' }\<close>. \<open>deleteRows\<close> then issues the
  delete of the block \<open>(2, 1, 1, 2)\<close>, and \<open>updateRows\<close>, with a callback that returns
  nothing, the write of \<open>[['', '']]\<close> to that block; each then clears the cached rows,
  resets the headings and flushes. This is the row count of \<open>getValues\<close> again: it passes
  \<open>getLastRow()\<close> as the number of rows to read from row 2.
\<close>

theorem header_only_table_blank_record:
  "getLastRow sheet_store (world query_header_only) 0 = 1 \<and>
   getSheetValues sheet_store (world query_header_only) 0 2 1 1 2 = [[CStr '''', CStr '''']] \<and>
   getValues sheet_store query_header_only =
     Inr ([[(''__meta'', JMeta 2 2), (''A'', JStr ''''), (''B'', JStr '''')]],
          loaded_header_only) \<and>
   filter is_block_read (new_calls query_header_only loaded_header_only) =
     [GetSheetValues 0 2 1 1 2] \<and>
   deleteRows sheet_store query_header_only = Inr ((), deleted_header_only) \<and>
   new_calls loaded_header_only deleted_header_only =
     [DeleteCells 0 (Num 2) 1 1 (Some 2), Flush] \<and>
   sheetValues deleted_header_only = None \<and> sheetHeadings deleted_header_only = Some [] \<and>
   updateRows sheet_store no_update query_header_only = Inr ((), rewritten_header_only) \<and>
   new_calls loaded_header_only rewritten_header_only =
     [SetValues 0 (Some 2) 1 1 (Some 2) [[JStr '''', JStr '''']], Flush] \<and>
   sheetValues rewritten_header_only = None \<and> sheetHeadings rewritten_header_only = Some []"
proof -
  have "filter is_block_read (new_calls query_header_only loaded_header_only) =
     [GetSheetValues 0 2 1 1 2]"
    by (simp add: new_calls_def loaded_header_only_def query_header_only_fields)
  moreover have "new_calls loaded_header_only deleted_header_only =
     [DeleteCells 0 (Num 2) 1 1 (Some 2), Flush]"
    by (rule new_calls_append) (simp add: deleted_header_only_def)
  moreover have "new_calls loaded_header_only rewritten_header_only =
     [SetValues 0 (Some 2) 1 1 (Some 2) [[JStr '''', JStr '''']], Flush]"
    by (rule new_calls_append) (simp add: rewritten_header_only_def)
  moreover have "sheetValues deleted_header_only = None"
    "sheetHeadings deleted_header_only = Some []"
    "sheetValues rewritten_header_only = None"
    "sheetHeadings rewritten_header_only = Some []"
    by (simp_all add: deleted_header_only_def rewritten_header_only_def)
  ultimately show ?thesis
    by (simp add: query_header_only_fields sheet_header_only sheet_getValues_header_only
        sheet_deleteRows_header_only sheet_updateRows_header_only)
qed

section \<open>Deleting rows\<close>



section \<open>Updating rows\<close>




section \<open>Inserting rows\<close>




section \<open>Cache lifecycle\<close>

text \<open>
  C4. \<open>insertRows\<close> on a builder that has rows and headings cached: it appends the row
  to the table, and returns with the cached rows and the cached headings as they were
  and without a flush. The append is the only call it issues. A \<open>getValues\<close> that
  follows returns the cached single row, although the table now has two data rows.
\<close>

theorem insertRows_keeps_cache:
  "insertRows grid_store [[(''A'', JNum 5), (''B'', JNum 6)]] loaded_AB = Inr ((), inserted_AB) \<and>
   world inserted_AB = [[CStr ''A'', CStr ''B''], [CNum 1, CNum 2], [CNum 5, CNum 6]] \<and>
   sheetValues inserted_AB = Some rows_AB \<and>
   sheetHeadings inserted_AB = Some [CStr ''A'', CStr ''B''] \<and>
   new_calls loaded_AB inserted_AB = [AppendRow 0 [JNum 5, JNum 6]] \<and>
   getValues grid_store inserted_AB = Inr (rows_AB, inserted_AB)"
proof -
  have "sheetValues inserted_AB = Some rows_AB"
    by (simp add: inserted_AB_def loaded_AB_fields)
  then have "getValues grid_store inserted_AB = Inr (rows_AB, inserted_AB)"
    by (rule getValues_cached)
  then show ?thesis
    by (simp add: insertRows_loaded_AB)
      (simp add: inserted_AB_def loaded_AB_fields table_AB_def new_calls_def)
qed

text \<open>
  C5, as amended. The table reference is created by the first \<open>getSheet\<close> and no
  operation clears it. On a builder whose table reference is set, or whose rows are not
  cached yet, a \<open>deleteRows\<close> or \<open>updateRows\<close> that returns leaves the table reference
  set, so that the next \<open>getSheet\<close> returns it and issues no call; the cached headings
  are reset to the empty list and the cached rows are cleared. \<open>clearCache\<close> leaves the
  table reference as it is.
\<close>

theorem table_reference_kept:
  assumes "sheet s = Some h \<or> sheetValues s = None"
  shows "(deleteRows be s = Inr ((), s2) \<longrightarrow>
            sheet s2 \<noteq> None \<and> getSheet be s2 = (sheet s2, s2) \<and>
            sheetHeadings s2 = Some [] \<and> sheetValues s2 = None) \<and>
         (updateRows be updateFn s = Inr ((), s3) \<longrightarrow>
            sheet s3 \<noteq> None \<and> getSheet be s3 = (sheet s3, s3) \<and>
            sheetHeadings s3 = Some [] \<and> sheetValues s3 = None) \<and>
         sheet (snd (getSheet be s)) = fst (getSheet be s) \<and>
         sheet (clearCache be s) = sheet s"
proof (intro conjI impI)
  assume del: "deleteRows be s = Inr ((), s2)"
  then obtain rows s1 s' where gr: "getRows be s = Inr (rows, s1)"
    and loop: "deleteRows_loop be rows 0 s1 = Inr s'" and s2: "s2 = clearCache be s'"
    by (auto simp: deleteRows_def split: sum.splits)
  have "sheet s2 = sheet s1"
    using deleteRows_loop_keeps[OF loop] s2 by simp
  with getRows_Inr_sheet[OF gr assms] show "sheet s2 \<noteq> None" by simp
  then show "getSheet be s2 = (sheet s2, s2)" by (rule getSheet_set)
  show "sheetHeadings s2 = Some []" "sheetValues s2 = None"
    using s2 by simp_all
next
  assume upd: "updateRows be updateFn s = Inr ((), s3)"
  then obtain rows s1 s' where gr: "getRows be s = Inr (rows, s1)"
    and loop: "updateRows_loop be updateFn rows s1 = Inr s'" and s3: "s3 = clearCache be s'"
    by (auto simp: updateRows_def split: sum.splits)
  have "sheet s3 = sheet s1"
    using updateRows_loop_keeps[OF loop] s3 by simp
  with getRows_Inr_sheet[OF gr assms] show "sheet s3 \<noteq> None" by simp
  then show "getSheet be s3 = (sheet s3, s3)" by (rule getSheet_set)
  show "sheetHeadings s3 = Some []" "sheetValues s3 = None"
    using s3 by simp_all
next
  show "sheet (snd (getSheet be s)) = fst (getSheet be s)"
    by (cases "sheet s") (simp_all add: getSheet_def Let_def)
next
  show "sheet (clearCache be s) = sheet s" by simp
qed

theorem table_reference_kept_witness:
  "(sheet query_AB = Some 0 \<or> sheetValues query_AB = None) \<and>
   deleteRows grid_store query_AB = Inr ((), deleted_AB) \<and>
   sheet deleted_AB = Some 0 \<and> getSheet grid_store deleted_AB = (Some 0, deleted_AB) \<and>
   sheetHeadings deleted_AB = Some [] \<and> sheetValues deleted_AB = None \<and>
   updateRows grid_store no_update query_AB = Inr ((), rewritten_AB) \<and>
   sheet rewritten_AB = Some 0 \<and> getSheet grid_store rewritten_AB = (Some 0, rewritten_AB) \<and>
   sheetHeadings rewritten_AB = Some [] \<and> sheetValues rewritten_AB = None"
proof -
  have "sheet query_AB = Some 0 \<or> sheetValues query_AB = None"
    by (simp add: query_AB_fields)
  from table_reference_kept[OF this, of grid_store deleted_AB no_update rewritten_AB]
  have "sheet deleted_AB \<noteq> None \<and> getSheet grid_store deleted_AB = (sheet deleted_AB, deleted_AB) \<and>
        sheetHeadings deleted_AB = Some [] \<and> sheetValues deleted_AB = None \<and>
        sheet rewritten_AB \<noteq> None \<and>
        getSheet grid_store rewritten_AB = (sheet rewritten_AB, rewritten_AB) \<and>
        sheetHeadings rewritten_AB = Some [] \<and> sheetValues rewritten_AB = None"
    by (simp add: deleteRows_AB updateRows_AB_same)
  moreover have "sheet deleted_AB = Some 0" "sheet rewritten_AB = Some 0"
    by (simp_all add: deleted_AB_def rewritten_AB_def loaded_AB_fields)
  ultimately show ?thesis
    using deleteRows_AB updateRows_AB_same query_AB_fields(2) by simp
qed

text \<open>
  C5 as stated fails: after \<open>deleteRows\<close> on the table with four data rows the table
  reference is still set, and \<open>getSheet\<close> returns it with the state unchanged, that is,
  without a lookup by name.
\<close>

theorem table_reference_cleared_counterexample:
  "deleteRows grid_store query_four = Inr ((), deleted_four) \<and>
   sheet deleted_four = Some 0 \<and>
   getSheet grid_store deleted_four = (Some 0, deleted_four)"
  by (simp add: deleteRows_four getSheet_def deleted_four_def loaded_four_def)

end
